theory Spec2Isabelle
  imports Main "HOL-Library.AList" "HOL-Library.Multiset"
begin

section \<open>JavaScript values\<close>

text \<open>
  The values a request session, a query result or a JSON body can hold. Numbers are
  integers plus \<open>NaN\<close> (only their truthiness is ever inspected), a \<open>Date\<close> is its
  timestamp, an object is the list of its own properties in insertion order.
\<close>

datatype jsval =
    JUndefined
  | JNull
  | JBool bool
  | JNum int
  | JNaN
  | JStr string
  | JDate int
  | JArr "jsval list"
  | JObj "(string \<times> jsval) list"

datatype js_error = TypeError | Error string

text \<open>JavaScript's \<open>ToBoolean\<close>: what \<open>!v\<close>, \<open>v || w\<close> and \<open>v && w\<close> test.\<close>

fun truthy :: "jsval \<Rightarrow> bool" where
  "truthy JUndefined = False"
| "truthy JNull = False"
| "truthy (JBool b) = b"
| "truthy (JNum n) = (n \<noteq> 0)"
| "truthy JNaN = False"
| "truthy (JStr s) = (s \<noteq> [])"
| "truthy (JDate t) = True"
| "truthy (JArr vs) = True"
| "truthy (JObj kvs) = True"

text \<open>
  The property read \<open>v.k\<close> for a name \<open>k\<close> that is no built-in property of strings,
  numbers, booleans, dates or arrays (the names read below are \<open>adminUser\<close>,
  \<open>adminjs\<close>, \<open>passport\<close>, \<open>user\<close> and the column names of a query row): on
  \<open>undefined\<close> and \<open>null\<close> it throws a TypeError, on an object it is the own property
  or \<open>undefined\<close>, on every other value it is \<open>undefined\<close>.
\<close>

fun getProp :: "jsval \<Rightarrow> string \<Rightarrow> js_error + jsval" where
  "getProp JUndefined k = Inl TypeError"
| "getProp JNull k = Inl TypeError"
| "getProp (JObj kvs) k = Inr (case map_of kvs k of None \<Rightarrow> JUndefined | Some v \<Rightarrow> v)"
| "getProp v k = Inr JUndefined"

section \<open>Authentication gate (middleware/auth.js)\<close>

subsection \<open>The admin identity\<close>

text \<open>
  \<open>adminUsers\<close> is a module-level array of \<open>{email, password, role}\<close>, where
  \<open>password\<close> holds the argon2 hash. The hashing primitive is an external library: it
  is a parameter of the model, \<open>hsh salt pw\<close> for \<open>argon2.hash\<close> (which draws a fresh
  salt on every call) and \<open>vrf h pw\<close> for \<open>argon2.verify\<close>, which answers a boolean
  or throws.
\<close>

record 'h admin_user =
  email :: string
  password :: 'h
  role :: string

record principal =
  principal_email :: string
  principal_role :: string

record env =
  ADMIN_EMAIL :: "string option"
  ADMIN_PASSWORD :: "string option"

text \<open>\<open>!s\<close> for an environment variable: unset or the empty string.\<close>

definition unset :: "string option \<Rightarrow> bool" where
  "unset v = (case v of None \<Rightarrow> True | Some s \<Rightarrow> s = [])"

text \<open>
  \<open>initializeAdminUser\<close>: throws when a credential is unset, otherwise pushes the new
  identity at the end of \<open>adminUsers\<close>. The array is the state, passed in and returned.
\<close>

definition initializeAdminUser ::
  "('s \<Rightarrow> string \<Rightarrow> 'h) \<Rightarrow> env \<Rightarrow> 's \<Rightarrow> 'h admin_user list \<Rightarrow> js_error + 'h admin_user list" where
  "initializeAdminUser hsh e salt adminUsers =
     (if unset (ADMIN_EMAIL e) \<or> unset (ADMIN_PASSWORD e)
      then Inl (Error ''Admin credentials not configured'')
      else Inr (adminUsers @
                [\<lparr>email = the (ADMIN_EMAIL e),
                  password = hsh salt (the (ADMIN_PASSWORD e)),
                  role = ''admin''\<rparr>]))"

text \<open>
  \<open>authenticate\<close>: \<open>Array.prototype.find\<close> returns the first user whose email is the
  given one; a verification that throws is caught and logged, and the function falls
  through to \<open>return null\<close>.
\<close>

definition authenticate ::
  "('h \<Rightarrow> string \<Rightarrow> js_error + bool) \<Rightarrow> 'h admin_user list \<Rightarrow> string \<Rightarrow> string \<Rightarrow> principal option" where
  "authenticate vrf adminUsers em pw =
     (case find (\<lambda>u. email u = em) adminUsers of
        None \<Rightarrow> None
      | Some user \<Rightarrow>
          (case vrf (password user) pw of
             Inr isValid \<Rightarrow>
               (if isValid
                then Some \<lparr>principal_email = email user, principal_role = role user\<rparr>
                else None)
           | Inl err \<Rightarrow> None))"

text \<open>
  The contract of the hashing primitive: verifying a password against a hash made by
  \<open>hsh\<close> answers whether it is the hashed password, and does not throw.
\<close>

definition hash_contract ::
  "('s \<Rightarrow> string \<Rightarrow> 'h) \<Rightarrow> ('h \<Rightarrow> string \<Rightarrow> js_error + bool) \<Rightarrow> bool" where
  "hash_contract hsh vrf = (\<forall>salt p q. vrf (hsh salt p) q = Inr (q = p))"

text \<open>
  An ideal salted hash, used to run the model on concrete inputs: the hash is the pair
  of salt and password, and verification compares the password.
\<close>

definition ideal_hash :: "nat \<Rightarrow> string \<Rightarrow> nat \<times> string" where
  "ideal_hash salt pw = (salt, pw)"

definition ideal_verify :: "nat \<times> string \<Rightarrow> string \<Rightarrow> js_error + bool" where
  "ideal_verify h pw = Inr (pw = snd h)"

text \<open>A verification that always throws (a malformed stored hash).\<close>

definition broken_verify :: "nat \<times> string \<Rightarrow> string \<Rightarrow> js_error + bool" where
  "broken_verify h pw = Inl (Error ''pchstr must contain a $ as first char'')"

subsection \<open>The session check and the two guards\<close>

record request =
  session :: jsval

text \<open>
  \<open>checkAuth\<close>: \<open>!!(s.adminUser || s.adminjs || (s.passport && s.passport.user))\<close>
  after the early return on a falsy session. Every property read can throw, so the
  result is a sum; \<open>||\<close> and \<open>&&\<close> evaluate their right operand only when needed.
\<close>

definition checkAuth :: "request \<Rightarrow> js_error + bool" where
  "checkAuth req =
     (if \<not> truthy (session req) then Inr False
      else
        (case getProp (session req) ''adminUser'' of
           Inl e \<Rightarrow> Inl e
         | Inr adminUser \<Rightarrow>
             (if truthy adminUser then Inr True
              else
                (case getProp (session req) ''adminjs'' of
                   Inl e \<Rightarrow> Inl e
                 | Inr adminjs \<Rightarrow>
                     (if truthy adminjs then Inr True
                      else
                        (case getProp (session req) ''passport'' of
                           Inl e \<Rightarrow> Inl e
                         | Inr passport \<Rightarrow>
                             (if \<not> truthy passport then Inr False
                              else
                                (case getProp passport ''user'' of
                                   Inl e \<Rightarrow> Inl e
                                 | Inr user \<Rightarrow> Inr (truthy user)))))))))"

text \<open>What a guard does with a request: call the protected handler, or answer itself.\<close>

datatype outcome =
    CallNext
  | StatusJson nat "(string \<times> string) list"
  | Redirect string

definition requireAuth :: "request \<Rightarrow> js_error + outcome" where
  "requireAuth req =
     (case checkAuth req of
        Inl e \<Rightarrow> Inl e
      | Inr ok \<Rightarrow> Inr (if ok then CallNext else StatusJson 401 [(''error'', ''Unauthorized'')]))"

definition requireAuthWeb :: "request \<Rightarrow> js_error + outcome" where
  "requireAuthWeb req =
     (case checkAuth req of
        Inl e \<Rightarrow> Inl e
      | Inr ok \<Rightarrow> Inr (if ok then CallNext else Redirect ''/admin/login''))"

text \<open>
  The specification's wording of the check, for comparison with \<open>checkAuth\<close>: a session
  carries a marker when it is an object with a truthy \<open>adminUser\<close>, a truthy
  \<open>adminjs\<close>, or a \<open>passport\<close> object with a truthy \<open>user\<close>.
\<close>

definition has_truthy :: "(string \<times> jsval) list \<Rightarrow> string \<Rightarrow> bool" where
  "has_truthy kvs k = (case map_of kvs k of None \<Rightarrow> False | Some v \<Rightarrow> truthy v)"

definition carries_marker :: "jsval \<Rightarrow> bool" where
  "carries_marker s =
     (case s of
        JObj kvs \<Rightarrow>
          has_truthy kvs ''adminUser'' \<or> has_truthy kvs ''adminjs'' \<or>
          (case map_of kvs ''passport'' of
             Some (JObj p) \<Rightarrow> has_truthy p ''user''
           | _ \<Rightarrow> False)
      | _ \<Rightarrow> False)"

section \<open>Record store (models/QueryResult.js, table \<open>search_queries\<close>)\<close>

text \<open>
  A row of the table. The columns are the ones the statistics handler names in its
  queries; every column but the key is nullable. \<open>created_at\<close> is a timestamp in
  microseconds, in the time zone of the database. The store is the list of its rows in
  the order a scan returns them. The order is no part of the table's contents: a second
  scan of unchanged rows may return them in another order, so two lists hold the same
  rows when one is a permutation of the other.
\<close>

record row =
  row_id :: int
  keyword :: "string option"
  search_type :: "string option"
  platform_name :: "string option"
  created_at :: "int option"

type_synonym store = "row list"


text \<open>\<open>DATE(created_at)\<close>: the timestamp truncated to its day.\<close>

definition DATE :: "int \<Rightarrow> int" where
  "DATE t = t div 86400000000"

text \<open>
  The order PostgreSQL sorts a nullable column by: \<open>NULL\<close> is larger than every value,
  so it comes last in \<open>ASC\<close> and first in \<open>DESC\<close>.
\<close>

definition pg_le :: "int option \<Rightarrow> int option \<Rightarrow> bool" where
  "pg_le a b =
     (case b of
        None \<Rightarrow> True
      | Some y \<Rightarrow> (case a of None \<Rightarrow> False | Some x \<Rightarrow> x \<le> y))"

text \<open>
  \<open>ORDER BY\<close>: an insertion sort by the given comparison. Rows that tie come in the
  order of the scan; SQL leaves their order open.
\<close>

fun insert_by :: "('a \<Rightarrow> 'a \<Rightarrow> bool) \<Rightarrow> 'a \<Rightarrow> 'a list \<Rightarrow> 'a list" where
  "insert_by le x [] = [x]"
| "insert_by le x (y # ys) = (if le x y then x # y # ys else y # insert_by le x ys)"

fun order_by :: "('a \<Rightarrow> 'a \<Rightarrow> bool) \<Rightarrow> 'a list \<Rightarrow> 'a list" where
  "order_by le [] = []"
| "order_by le (x # xs) = insert_by le x (order_by le xs)"

text \<open>
  \<open>SELECT k, COUNT(id) ... GROUP BY k\<close> over the listed keys: one result row per
  distinct key (\<open>NULL\<close> is a key of its own), with the number of rows that have it
  (\<open>id\<close> is never null). SQL fixes no order of the groups, and the order can change
  from one query to the next on unchanged rows. The model takes it from the scan: the
  groups come in the order of the last occurrence of their key. As the scan ranges over
  the permutations of the rows, the answer ranges over every order of the groups
  (\<open>group_answer\<close> below says what an admissible answer is).
\<close>

definition groupCount :: "'k list \<Rightarrow> ('k \<times> nat) list" where
  "groupCount ks = map (\<lambda>k. (k, count_list ks k)) (remdups ks)"

definition group_answer :: "'k list \<Rightarrow> ('k \<times> nat) list \<Rightarrow> bool" where
  "group_answer ks gs =
     (distinct (map fst gs) \<and> set gs = (\<lambda>k. (k, count_list ks k)) ` set ks)"

text \<open>A scan whose groups come in the order of a given answer.\<close>

definition scan_of :: "('k \<times> nat) list \<Rightarrow> 'k list" where
  "scan_of gs = concat (map (\<lambda>(k, c). replicate c k) gs)"

text \<open>\<open>MIN\<close> and \<open>MAX\<close> skip nulls and are \<open>NULL\<close> when nothing is left.\<close>

definition non_null :: "'a option list \<Rightarrow> 'a list" where
  "non_null xs = map the (filter (\<lambda>x. x \<noteq> None) xs)"

definition sql_MIN :: "int option list \<Rightarrow> int option" where
  "sql_MIN xs = (case non_null xs of [] \<Rightarrow> None | t # ts \<Rightarrow> Some (fold min ts t))"

definition sql_MAX :: "int option list \<Rightarrow> int option" where
  "sql_MAX xs = (case non_null xs of [] \<Rightarrow> None | t # ts \<Rightarrow> Some (fold max ts t))"

text \<open>
  The Sequelize model \<open>SearchQuery\<close> declares four attributes: \<open>id\<close>, \<open>keyword\<close>,
  \<open>search_type\<close> and \<open>created_at\<close> (\<open>platform_name\<close>, which the handler's platform
  query and the admin resource options name, is not declared). A \<open>findAll\<close> without an
  \<open>attributes\<close> option selects the declared attributes, and the instances it builds
  hold exactly those; reading any other property of an instance gives \<open>undefined\<close>.
  A raw query with explicit attributes returns the columns it names, declared or not.
\<close>

definition SearchQuery_attributes :: "string list" where
  "SearchQuery_attributes = [''id'', ''keyword'', ''search_type'', ''created_at'']"

definition js_text :: "string option \<Rightarrow> jsval" where
  "js_text v = (case v of None \<Rightarrow> JNull | Some s \<Rightarrow> JStr s)"

definition js_time :: "int option \<Rightarrow> jsval" where
  "js_time v = (case v of None \<Rightarrow> JNull | Some t \<Rightarrow> JDate t)"

definition row_columns :: "row \<Rightarrow> (string \<times> jsval) list" where
  "row_columns r =
     [(''id'', JNum (row_id r)),
      (''keyword'', js_text (keyword r)),
      (''platform_name'', js_text (platform_name r)),
      (''search_type'', js_text (search_type r)),
      (''created_at'', js_time (created_at r))]"

definition build_instance :: "row \<Rightarrow> (string \<times> jsval) list" where
  "build_instance r = filter (\<lambda>(c, v). c \<in> set SearchQuery_attributes) (row_columns r)"

definition instance_get :: "(string \<times> jsval) list \<Rightarrow> string \<Rightarrow> jsval" where
  "instance_get inst k = (case map_of inst k of None \<Rightarrow> JUndefined | Some v \<Rightarrow> v)"

section \<open>Statistics handler (\<open>GET /api/stats\<close> in server.js)\<close>

subsection \<open>The six queries\<close>

definition searchTypeResults :: "store \<Rightarrow> (string option \<times> nat) list" where
  "searchTypeResults st = groupCount (map search_type st)"

definition platformResults :: "store \<Rightarrow> (string option \<times> nat) list" where
  "platformResults st = groupCount (map platform_name (filter (\<lambda>r. platform_name r \<noteq> None) st))"

definition row_date :: "row \<Rightarrow> int option" where
  "row_date r = map_option DATE (created_at r)"

definition timelineResults :: "store \<Rightarrow> (int option \<times> nat) list" where
  "timelineResults st = order_by (\<lambda>a b. pg_le (fst a) (fst b)) (groupCount (map row_date st))"

definition recentRecords :: "store \<Rightarrow> (string \<times> jsval) list list" where
  "recentRecords st =
     map build_instance (take 10 (order_by (\<lambda>a b. pg_le (created_at b) (created_at a)) st))"

subsection \<open>Assembling the snapshot\<close>

text \<open>\<open>label || 'Unknown'\<close> on a group label: \<open>null\<close> and the empty string are falsy.\<close>

definition orUnknown :: "string option \<Rightarrow> string" where
  "orUnknown v = (case v of None \<Rightarrow> ''Unknown'' | Some s \<Rightarrow> if s = [] then ''Unknown'' else s)"

text \<open>
  \<open>obj[k] = n\<close> on a plain object, held as the list of its entries: the entry of \<open>k\<close>
  is replaced where it stands, or added at the end. The name \<open>__proto__\<close> is the
  exception: assigning a number to it stores nothing.
\<close>

definition assign_prop :: "string \<Rightarrow> nat \<Rightarrow> (string \<times> nat) list \<Rightarrow> (string \<times> nat) list" where
  "assign_prop k n obj = (if k = ''__proto__'' then obj else AList.update k n obj)"

text \<open>
  \<open>results.forEach(row => { obj[key(row)] = parseInt(row.count) })\<close> on an object
  that starts empty: each result row assigns its count to its key, replacing what an
  earlier row stored there. \<open>forEach_prop\<close> is the loop of the two breakdowns, whose
  keys are labels taken from the rows. \<open>forEach_assign\<close> is the loop of the timeline,
  whose keys are dates (none of them is \<open>__proto__\<close>).
\<close>

definition forEach_prop :: "('k \<Rightarrow> string) \<Rightarrow> ('k \<times> nat) list \<Rightarrow> (string \<times> nat) list" where
  "forEach_prop key results = foldl (\<lambda>obj (k, c). assign_prop (key k) c obj) [] results"

definition forEach_assign :: "('k \<Rightarrow> 'l) \<Rightarrow> ('k \<times> nat) list \<Rightarrow> ('l \<times> nat) list" where
  "forEach_assign key results = foldl (\<lambda>obj (k, c). AList.update (key k) c obj) [] results"

record date_range =
  earliest :: "int option"
  latest :: "int option"

text \<open>
  The \<open>data\<close> object of the response. The keys of \<open>timelineData\<close> are the dates as
  the store prints them; the model keeps the day itself, and \<open>None\<close> for the key
  \<open>null\<close> of the rows without a date.
\<close>

record snapshot =
  total' :: nat
  searchTypeBreakdown :: "(string \<times> nat) list"
  timelineData :: "(int option \<times> nat) list"
  platformBreakdown :: "(string \<times> nat) list"
  recentQueries :: "(string \<times> jsval) list list"
  dateRange :: date_range

text \<open>
  The object built for each recent record by \<open>recentRecords.map(r => ({...}))\<close>. (A
  member that is \<open>undefined\<close> is left out when the response is serialized.)
\<close>

definition project_recent :: "(string \<times> jsval) list \<Rightarrow> (string \<times> jsval) list" where
  "project_recent r =
     [(''id'', instance_get r ''id''),
      (''keyword'', instance_get r ''keyword''),
      (''search_type'', instance_get r ''search_type''),
      (''platform_name'', instance_get r ''platform_name''),
      (''created_at'', instance_get r ''created_at'')]"

definition computeSnapshot :: "store \<Rightarrow> snapshot" where
  "computeSnapshot st =
     \<lparr>total' = length st,
      searchTypeBreakdown = forEach_prop orUnknown (searchTypeResults st),
      timelineData = forEach_assign (\<lambda>d. d) (timelineResults st),
      platformBreakdown = forEach_prop orUnknown (platformResults st),
      recentQueries = map project_recent (recentRecords st),
      dateRange = \<lparr>earliest = sql_MIN (map created_at st), latest = sql_MAX (map created_at st)\<rparr>\<rparr>"



section \<open>Properties of the authentication gate\<close>

lemma checkAuth_marker: "checkAuth req = Inr (carries_marker (session req))"
  by (cases "session req")
     (auto simp: checkAuth_def carries_marker_def has_truthy_def split: option.splits jsval.splits)

lemma initialize_result:
  "initializeAdminUser hsh e salt us = Inr us' \<Longrightarrow>
   \<exists>em pw. ADMIN_EMAIL e = Some em \<and> ADMIN_PASSWORD e = Some pw \<and> em \<noteq> [] \<and> pw \<noteq> []
     \<and> us' = us @ [\<lparr>email = em, password = hsh salt pw, role = ''admin''\<rparr>]"
  by (auto simp: initializeAdminUser_def unset_def split: if_splits option.splits)

text \<open>
  C1. After one initialization from an empty \<open>adminUsers\<close>, and with a hashing
  primitive that keeps its contract, \<open>authenticate\<close> returns the principal
  \<open>{email, role: "admin"}\<close> for the configured pair and \<open>null\<close> for every other
  pair (wrong password, wrong email). With no configured identity it returns \<open>null\<close>.
  Whatever the primitive and the user list, a verification that throws is absorbed: the
  result is \<open>null\<close>, and \<open>authenticate\<close> has no error result at all.
\<close>

theorem authenticate_configured_pair:
  assumes contract: "hash_contract hsh vrf"
      and init: "initializeAdminUser hsh e salt [] = Inr users"
  shows "(ADMIN_EMAIL e = Some em \<and> ADMIN_PASSWORD e = Some pw \<longrightarrow>
            authenticate vrf users em pw = Some \<lparr>principal_email = em, principal_role = ''admin''\<rparr>)
       \<and> (\<not> (ADMIN_EMAIL e = Some em \<and> ADMIN_PASSWORD e = Some pw) \<longrightarrow>
            authenticate vrf users em pw = None)
       \<and> authenticate vrf' [] em pw = None
       \<and> (\<forall>u err. find (\<lambda>u. email u = em) us = Some u \<and> vrf' (password u) pw = Inl err \<longrightarrow>
            authenticate vrf' us em pw = None)"
proof -
  from initialize_result [OF init] obtain em0 pw0 where
    e: "ADMIN_EMAIL e = Some em0" "ADMIN_PASSWORD e = Some pw0"
    and us: "users = [\<lparr>email = em0, password = hsh salt pw0, role = ''admin''\<rparr>]"
    by auto
  show ?thesis
    using contract by (auto simp: authenticate_def e us hash_contract_def)
qed

theorem authenticate_configured_pair_witness:
  "hash_contract ideal_hash ideal_verify
   \<and> initializeAdminUser ideal_hash \<lparr>ADMIN_EMAIL = Some ''admin@example.com'', ADMIN_PASSWORD = Some ''s3cret''\<rparr> 7 []
       = Inr [\<lparr>email = ''admin@example.com'', password = (7, ''s3cret''), role = ''admin''\<rparr>]
   \<and> authenticate ideal_verify [\<lparr>email = ''admin@example.com'', password = (7, ''s3cret''), role = ''admin''\<rparr>]
        ''admin@example.com'' ''s3cret''
       = Some \<lparr>principal_email = ''admin@example.com'', principal_role = ''admin''\<rparr>
   \<and> authenticate ideal_verify [\<lparr>email = ''admin@example.com'', password = (7, ''s3cret''), role = ''admin''\<rparr>]
        ''admin@example.com'' ''guess'' = None
   \<and> authenticate ideal_verify [\<lparr>email = ''admin@example.com'', password = (7, ''s3cret''), role = ''admin''\<rparr>]
        ''root@example.com'' ''s3cret'' = None
   \<and> authenticate broken_verify [\<lparr>email = ''admin@example.com'', password = (7, ''s3cret''), role = ''admin''\<rparr>]
        ''admin@example.com'' ''s3cret'' = None"
proof -
  have c: "hash_contract ideal_hash ideal_verify"
    by (simp add: hash_contract_def ideal_hash_def ideal_verify_def)
  have i: "initializeAdminUser ideal_hash \<lparr>ADMIN_EMAIL = Some ''admin@example.com'', ADMIN_PASSWORD = Some ''s3cret''\<rparr> 7 []
       = Inr [\<lparr>email = ''admin@example.com'', password = (7, ''s3cret''), role = ''admin''\<rparr>]"
    by (simp add: initializeAdminUser_def unset_def ideal_hash_def)
  have b: "broken_verify (7, ''s3cret'') ''s3cret'' = Inl (Error ''pchstr must contain a $ as first char'')"
    by (simp add: broken_verify_def)
  show ?thesis
    using c i b
      authenticate_configured_pair [OF c i, of "''admin@example.com''" "''s3cret''" broken_verify
        "[\<lparr>email = ''admin@example.com'', password = (7, ''s3cret''), role = ''admin''\<rparr>]"]
      authenticate_configured_pair [OF c i, of "''admin@example.com''" "''guess''" broken_verify "[]"]
      authenticate_configured_pair [OF c i, of "''root@example.com''" "''s3cret''" broken_verify "[]"]
    by simp
qed

text \<open>
  C6. \<open>checkAuth\<close> never throws: for every session value it returns a boolean, which is
  true exactly when the session carries a recognized marker (a truthy \<open>adminUser\<close>, a
  truthy \<open>adminjs\<close>, or a \<open>passport\<close> with a truthy \<open>user\<close>). An absent session
  (\<open>undefined\<close> or \<open>null\<close>) is not authenticated.
\<close>

theorem isAuthenticated_total:
  "checkAuth req = Inr (carries_marker (session req))
   \<and> checkAuth \<lparr>session = JUndefined\<rparr> = Inr False
   \<and> checkAuth \<lparr>session = JNull\<rparr> = Inr False
   \<and> (\<forall>e. checkAuth req \<noteq> Inl e)"
  by (simp add: checkAuth_marker carries_marker_def)

text \<open>
  C7. The API guard and the page guard call the protected handler on exactly the same
  requests, those that pass \<open>checkAuth\<close>. On a request that fails it the API guard
  answers 401 with \<open>{error: "Unauthorized"}\<close> and the page guard redirects to
  \<open>/admin/login\<close>. Every request either passes or fails the check.
\<close>

theorem guards_admit_same_requests:
  "(requireAuth req = Inr CallNext \<longleftrightarrow> requireAuthWeb req = Inr CallNext)
   \<and> (checkAuth req = Inr True \<longrightarrow>
        requireAuth req = Inr CallNext \<and> requireAuthWeb req = Inr CallNext)
   \<and> (checkAuth req = Inr False \<longrightarrow>
        requireAuth req = Inr (StatusJson 401 [(''error'', ''Unauthorized'')])
        \<and> requireAuthWeb req = Inr (Redirect ''/admin/login''))
   \<and> (checkAuth req = Inr True \<or> checkAuth req = Inr False)"
  by (auto simp: requireAuth_def requireAuthWeb_def checkAuth_marker)

theorem guards_admit_same_requests_witness:
  "checkAuth \<lparr>session = JObj [(''adminUser'', JObj [(''email'', JStr ''a@b.c'')])]\<rparr> = Inr True
   \<and> requireAuth \<lparr>session = JObj [(''adminUser'', JObj [(''email'', JStr ''a@b.c'')])]\<rparr> = Inr CallNext
   \<and> requireAuthWeb \<lparr>session = JObj [(''adminUser'', JObj [(''email'', JStr ''a@b.c'')])]\<rparr> = Inr CallNext
   \<and> checkAuth \<lparr>session = JObj [(''cookie'', JObj [])]\<rparr> = Inr False
   \<and> requireAuth \<lparr>session = JObj [(''cookie'', JObj [])]\<rparr> = Inr (StatusJson 401 [(''error'', ''Unauthorized'')])
   \<and> requireAuthWeb \<lparr>session = JObj [(''cookie'', JObj [])]\<rparr> = Inr (Redirect ''/admin/login'')"
proof -
  have p: "checkAuth \<lparr>session = JObj [(''adminUser'', JObj [(''email'', JStr ''a@b.c'')])]\<rparr> = Inr True"
    by (simp add: checkAuth_def)
  have f: "checkAuth \<lparr>session = JObj [(''cookie'', JObj [])]\<rparr> = Inr False"
    by (simp add: checkAuth_def)
  show ?thesis
    using p f
      guards_admit_same_requests [of "\<lparr>session = JObj [(''adminUser'', JObj [(''email'', JStr ''a@b.c'')])]\<rparr>"]
      guards_admit_same_requests [of "\<lparr>session = JObj [(''cookie'', JObj [])]\<rparr>"]
    by simp
qed

text \<open>
  C8, as the specification states it, fails: a second initialization with the same
  email and a new password leaves the first identity in front of the second, so the new
  password is refused and the old one still accepted.
\<close>

theorem reinitialize_overwrites_counterexample:
  "initializeAdminUser ideal_hash \<lparr>ADMIN_EMAIL = Some ''admin@example.com'', ADMIN_PASSWORD = Some ''old''\<rparr> 1 []
     = Inr [\<lparr>email = ''admin@example.com'', password = (1, ''old''), role = ''admin''\<rparr>]
   \<and> initializeAdminUser ideal_hash \<lparr>ADMIN_EMAIL = Some ''admin@example.com'', ADMIN_PASSWORD = Some ''new''\<rparr> 2
       [\<lparr>email = ''admin@example.com'', password = (1, ''old''), role = ''admin''\<rparr>]
     = Inr [\<lparr>email = ''admin@example.com'', password = (1, ''old''), role = ''admin''\<rparr>,
            \<lparr>email = ''admin@example.com'', password = (2, ''new''), role = ''admin''\<rparr>]
   \<and> authenticate ideal_verify
        [\<lparr>email = ''admin@example.com'', password = (1, ''old''), role = ''admin''\<rparr>,
         \<lparr>email = ''admin@example.com'', password = (2, ''new''), role = ''admin''\<rparr>]
        ''admin@example.com'' ''new'' = None
   \<and> authenticate ideal_verify
        [\<lparr>email = ''admin@example.com'', password = (1, ''old''), role = ''admin''\<rparr>,
         \<lparr>email = ''admin@example.com'', password = (2, ''new''), role = ''admin''\<rparr>]
        ''admin@example.com'' ''old''
     = Some \<lparr>principal_email = ''admin@example.com'', principal_role = ''admin''\<rparr>"
  by (simp add: initializeAdminUser_def unset_def ideal_hash_def ideal_verify_def authenticate_def)

text \<open>
  C8, amended. A second initialization appends its identity and keeps the first;
  \<open>authenticate\<close> checks the first identity whose email matches. So a pair is
  accepted exactly when it is the first configured pair, or when its email differs from
  the first configured email and it is the second configured pair.
\<close>

theorem reinitialize_appends:
  assumes contract: "hash_contract hsh vrf"
      and init1: "initializeAdminUser hsh e1 s1 [] = Inr us1"
      and init2: "initializeAdminUser hsh e2 s2 us1 = Inr us2"
  shows "authenticate vrf us2 em pw =
           (if ADMIN_EMAIL e1 = Some em
            then (if ADMIN_PASSWORD e1 = Some pw
                  then Some \<lparr>principal_email = em, principal_role = ''admin''\<rparr> else None)
            else if ADMIN_EMAIL e2 = Some em \<and> ADMIN_PASSWORD e2 = Some pw
                 then Some \<lparr>principal_email = em, principal_role = ''admin''\<rparr> else None)"
proof -
  from initialize_result [OF init1] obtain em1 pw1 where
    e1: "ADMIN_EMAIL e1 = Some em1" "ADMIN_PASSWORD e1 = Some pw1"
    and us1: "us1 = [\<lparr>email = em1, password = hsh s1 pw1, role = ''admin''\<rparr>]"
    by auto
  from initialize_result [OF init2] obtain em2 pw2 where
    e2: "ADMIN_EMAIL e2 = Some em2" "ADMIN_PASSWORD e2 = Some pw2"
    and us2: "us2 = us1 @ [\<lparr>email = em2, password = hsh s2 pw2, role = ''admin''\<rparr>]"
    by auto
  show ?thesis
    using contract by (auto simp: authenticate_def e1 e2 us1 us2 hash_contract_def)
qed

theorem reinitialize_appends_witness:
  "hash_contract ideal_hash ideal_verify
   \<and> initializeAdminUser ideal_hash \<lparr>ADMIN_EMAIL = Some ''a@x.org'', ADMIN_PASSWORD = Some ''one''\<rparr> 1 []
     = Inr [\<lparr>email = ''a@x.org'', password = (1, ''one''), role = ''admin''\<rparr>]
   \<and> initializeAdminUser ideal_hash \<lparr>ADMIN_EMAIL = Some ''b@x.org'', ADMIN_PASSWORD = Some ''two''\<rparr> 2
       [\<lparr>email = ''a@x.org'', password = (1, ''one''), role = ''admin''\<rparr>]
     = Inr [\<lparr>email = ''a@x.org'', password = (1, ''one''), role = ''admin''\<rparr>,
            \<lparr>email = ''b@x.org'', password = (2, ''two''), role = ''admin''\<rparr>]
   \<and> authenticate ideal_verify
        [\<lparr>email = ''a@x.org'', password = (1, ''one''), role = ''admin''\<rparr>,
         \<lparr>email = ''b@x.org'', password = (2, ''two''), role = ''admin''\<rparr>]
        ''a@x.org'' ''one'' = Some \<lparr>principal_email = ''a@x.org'', principal_role = ''admin''\<rparr>
   \<and> authenticate ideal_verify
        [\<lparr>email = ''a@x.org'', password = (1, ''one''), role = ''admin''\<rparr>,
         \<lparr>email = ''b@x.org'', password = (2, ''two''), role = ''admin''\<rparr>]
        ''b@x.org'' ''two'' = Some \<lparr>principal_email = ''b@x.org'', principal_role = ''admin''\<rparr>"
proof -
  have c: "hash_contract ideal_hash ideal_verify"
    by (simp add: hash_contract_def ideal_hash_def ideal_verify_def)
  have i1: "initializeAdminUser ideal_hash \<lparr>ADMIN_EMAIL = Some ''a@x.org'', ADMIN_PASSWORD = Some ''one''\<rparr> 1 []
     = Inr [\<lparr>email = ''a@x.org'', password = (1, ''one''), role = ''admin''\<rparr>]"
    by (simp add: initializeAdminUser_def unset_def ideal_hash_def)
  have i2: "initializeAdminUser ideal_hash \<lparr>ADMIN_EMAIL = Some ''b@x.org'', ADMIN_PASSWORD = Some ''two''\<rparr> 2
       [\<lparr>email = ''a@x.org'', password = (1, ''one''), role = ''admin''\<rparr>]
     = Inr [\<lparr>email = ''a@x.org'', password = (1, ''one''), role = ''admin''\<rparr>,
            \<lparr>email = ''b@x.org'', password = (2, ''two''), role = ''admin''\<rparr>]"
    by (simp add: initializeAdminUser_def unset_def ideal_hash_def)
  show ?thesis
    using c i1 i2
      reinitialize_appends [OF c i1 i2, of "''a@x.org''" "''one''"]
      reinitialize_appends [OF c i1 i2, of "''b@x.org''" "''two''"]
    by simp
qed

section \<open>Properties of the statistics handler\<close>

subsection \<open>Assignment in a loop\<close>

lemma forEach_assign_snoc:
  "forEach_assign key (rs @ [(k, c)]) = AList.update (key k) c (forEach_assign key rs)"
  by (simp add: forEach_assign_def)

lemma forEach_assign_absent:
  "l \<notin> key ` fst ` set rs \<Longrightarrow> map_of (forEach_assign key rs) l = None"
proof (induction rs rule: rev_induct)
  case Nil
  then show ?case by (simp add: forEach_assign_def)
next
  case (snoc x rs)
  obtain k c where x: "x = (k, c)" by (cases x)
  with snoc show ?case
    by (auto simp: forEach_assign_snoc update_conv')
qed

lemma forEach_assign_single_source:
  assumes "(k0, c0) \<in> set rs"
      and "\<And>k c. (k, c) \<in> set rs \<Longrightarrow> key k = key k0 \<Longrightarrow> c = c0"
  shows "map_of (forEach_assign key rs) (key k0) = Some c0"
  using assms
proof (induction rs rule: rev_induct)
  case Nil
  then show ?case by simp
next
  case (snoc x rs)
  obtain k c where x: "x = (k, c)" by (cases x)
  show ?case
  proof (cases "key k = key k0")
    case True
    with snoc.prems(2) [of k c] x have "c = c0" by simp
    with True x show ?thesis by (simp add: forEach_assign_snoc update_conv')
  next
    case False
    with snoc.prems(1) x have "(k0, c0) \<in> set rs" by auto
    moreover have "\<And>k c. (k, c) \<in> set rs \<Longrightarrow> key k = key k0 \<Longrightarrow> c = c0"
      using snoc.prems(2) by auto
    ultimately have "map_of (forEach_assign key rs) (key k0) = Some c0"
      by (rule snoc.IH)
    with False x show ?thesis by (simp add: forEach_assign_snoc update_conv')
  qed
qed

lemma forEach_assign_source:
  "map_of (forEach_assign key rs) l = Some c \<Longrightarrow> \<exists>k. (k, c) \<in> set rs \<and> key k = l"
proof (induction rs rule: rev_induct)
  case Nil
  then show ?case by (simp add: forEach_assign_def)
next
  case (snoc x rs)
  obtain k' c' where x: "x = (k', c')" by (cases x)
  with snoc show ?case
    by (auto simp: forEach_assign_snoc update_conv' split: if_splits)
qed

lemma forEach_prop_foldl:
  "foldl (\<lambda>obj (k, c). assign_prop (key k) c obj) init rs
     = foldl (\<lambda>obj (k, c). AList.update (key k) c obj) init
         (filter (\<lambda>(k, c). key k \<noteq> ''__proto__'') rs)"
  by (induction rs arbitrary: init) (simp_all add: assign_prop_def split: prod.splits)

lemma forEach_prop_filter:
  "forEach_prop key rs = forEach_assign key (filter (\<lambda>(k, c). key k \<noteq> ''__proto__'') rs)"
  by (simp add: forEach_prop_def forEach_assign_def forEach_prop_foldl)


lemma forEach_prop_single_source:
  assumes "(k0, c0) \<in> set rs" and "key k0 \<noteq> ''__proto__''"
      and "\<And>k c. (k, c) \<in> set rs \<Longrightarrow> key k = key k0 \<Longrightarrow> c = c0"
  shows "map_of (forEach_prop key rs) (key k0) = Some c0"
  unfolding forEach_prop_filter
proof (rule forEach_assign_single_source)
  show "(k0, c0) \<in> set (filter (\<lambda>(k, c). key k \<noteq> ''__proto__'') rs)"
    using assms(1,2) by simp
next
  fix k c
  assume "(k, c) \<in> set (filter (\<lambda>(k, c). key k \<noteq> ''__proto__'') rs)" and "key k = key k0"
  then show "c = c0" using assms(3) [of k c] by simp
qed

lemma forEach_prop_source:
  assumes "map_of (forEach_prop key rs) l = Some c"
  shows "\<exists>k. (k, c) \<in> set rs \<and> key k = l"
proof -
  from assms obtain k where "(k, c) \<in> set (filter (\<lambda>(k, c). key k \<noteq> ''__proto__'') rs)" "key k = l"
    unfolding forEach_prop_filter by (blast dest: forEach_assign_source)
  then show ?thesis by auto
qed

subsection \<open>Grouping and ordering\<close>

lemma set_groupCount: "set (groupCount ks) = (\<lambda>k. (k, count_list ks k)) ` set ks"
  by (simp add: groupCount_def)

lemma groupCount_mem: "(k, c) \<in> set (groupCount ks) \<longleftrightarrow> k \<in> set ks \<and> c = count_list ks k"
  by (auto simp: set_groupCount)

lemma count_list_map: "count_list (map f xs) k = length (filter (\<lambda>x. f x = k) xs)"
  by (induction xs) auto

lemma groupCount_replicate: "0 < n \<Longrightarrow> groupCount (replicate n k) = [(k, n)]"
proof -
  assume "0 < n"
  then have "remdups (replicate n k) = [k]" by (induction n) auto
  moreover have "count_list (replicate n k) k = n" by (induction n) auto
  ultimately show ?thesis by (simp add: groupCount_def)
qed

lemma set_insert_by: "set (insert_by le x ys) = insert x (set ys)"
  by (induction ys) auto

lemma set_order_by: "set (order_by le xs) = set xs"
  by (induction xs) (auto simp: set_insert_by)

lemma length_insert_by: "length (insert_by le x ys) = Suc (length ys)"
  by (induction ys) auto

lemma length_order_by: "length (order_by le xs) = length xs"
  by (induction xs) (auto simp: length_insert_by)

lemma sorted_insert_by:
  assumes tot: "\<And>a b. le a b \<or> le b a" and trans: "\<And>a b c. le a b \<Longrightarrow> le b c \<Longrightarrow> le a c"
  shows "sorted_wrt le ys \<Longrightarrow> sorted_wrt le (insert_by le x ys)"
proof (induction ys)
  case Nil
  then show ?case by simp
next
  case (Cons y ys)
  show ?case
  proof (cases "le x y")
    case True
    with Cons.prems trans show ?thesis by auto
  next
    case False
    with tot [of x y] have "le y x" by simp
    with Cons False show ?thesis by (auto simp: set_insert_by)
  qed
qed

lemma sorted_order_by:
  assumes tot: "\<And>a b. le a b \<or> le b a" and trans: "\<And>a b c. le a b \<Longrightarrow> le b c \<Longrightarrow> le a c"
  shows "sorted_wrt le (order_by le xs)"
  by (induction xs) (auto intro: sorted_insert_by [OF tot trans])

lemma pg_le_total: "pg_le a b \<or> pg_le b a"
  by (auto simp: pg_le_def split: option.splits)

lemma pg_le_trans: "pg_le a b \<Longrightarrow> pg_le b c \<Longrightarrow> pg_le a c"
  by (auto simp: pg_le_def split: option.splits)

lemma sorted_wrt_take: "sorted_wrt P xs \<Longrightarrow> sorted_wrt P (take n xs)"
  by (metis append_take_drop_id sorted_wrt_append)



lemma distinct_groupCount: "distinct (map fst (groupCount ks))"
  by (simp add: groupCount_def comp_def)

lemma groupCount_is_answer: "group_answer ks (groupCount ks)"
  by (simp add: group_answer_def distinct_groupCount set_groupCount)





subsection \<open>Every order of the groups is the answer to some scan\<close>

lemma remdups_append_disjoint:
  "set xs \<inter> set ys = {} \<Longrightarrow> remdups (xs @ ys) = remdups xs @ remdups ys"
  by (induction xs) auto

lemma remdups_replicate_pos: "0 < n \<Longrightarrow> remdups (replicate n k) = [k]"
  by (induction n) auto

lemma count_list_replicate: "count_list (replicate n k) x = (if x = k then n else 0)"
  by (induction n) auto

lemma set_scan_of: "set (scan_of gs) \<subseteq> fst ` set gs"
  by (induction gs) (auto simp: scan_of_def)

lemma count_list_scan_of:
  "distinct (map fst gs) \<Longrightarrow>
   count_list (scan_of gs) k = (case map_of gs k of None \<Rightarrow> 0 | Some c \<Rightarrow> c)"
proof (induction gs)
  case Nil
  then show ?case by (simp add: scan_of_def)
next
  case (Cons g gs)
  obtain k' c' where g: "g = (k', c')" by (cases g)
  from Cons.prems g have "k' \<notin> fst ` set gs" by simp
  then have "map_of gs k' = None" by (simp add: map_of_eq_None_iff)
  moreover have "scan_of (g # gs) = replicate c' k' @ scan_of gs"
    by (simp add: scan_of_def g)
  ultimately show ?case
    using Cons g by (simp add: count_list_replicate)
qed

lemma remdups_scan_of:
  "distinct (map fst gs) \<Longrightarrow> \<forall>(k, c) \<in> set gs. 0 < c \<Longrightarrow> remdups (scan_of gs) = map fst gs"
proof (induction gs)
  case Nil
  then show ?case by (simp add: scan_of_def)
next
  case (Cons g gs)
  obtain k c where g: "g = (k, c)" by (cases g)
  from Cons.prems g have k: "k \<notin> fst ` set gs" and c: "0 < c" by auto
  have s: "scan_of (g # gs) = replicate c k @ scan_of gs"
    by (simp add: scan_of_def g)
  from k set_scan_of [of gs] have "set (replicate c k) \<inter> set (scan_of gs) = {}" by auto
  then have "remdups (scan_of (g # gs)) = remdups (replicate c k) @ remdups (scan_of gs)"
    unfolding s by (rule remdups_append_disjoint)
  with Cons c g show ?case by (simp add: remdups_replicate_pos)
qed

lemma every_group_order_has_a_scan:
  assumes "group_answer ks gs"
  shows "mset (scan_of gs) = mset ks \<and> groupCount (scan_of gs) = gs"
proof -
  from assms have d: "distinct (map fst gs)"
    and s: "set gs = (\<lambda>k. (k, count_list ks k)) ` set ks"
    by (simp_all add: group_answer_def)
  have mem: "\<And>k c. (k, c) \<in> set gs \<longleftrightarrow> k \<in> set ks \<and> c = count_list ks k"
    using s by auto
  have pos: "\<forall>(k, c) \<in> set gs. 0 < c"
    using mem count_list_0_iff [of ks] by fastforce
  have cnt: "\<And>k. count_list (scan_of gs) k = count_list ks k"
  proof -
    fix k
    show "count_list (scan_of gs) k = count_list ks k"
    proof (cases "k \<in> set ks")
      case True
      then have "(k, count_list ks k) \<in> set gs" by (simp add: mem)
      with d have "map_of gs k = Some (count_list ks k)" by simp
      then show ?thesis by (simp add: count_list_scan_of [OF d])
    next
      case False
      then have "k \<notin> fst ` set gs" using mem by force
      then have "map_of gs k = None" by (simp add: map_of_eq_None_iff)
      moreover from False have "count_list ks k = 0" by (simp add: count_list_0_iff)
      ultimately show ?thesis by (simp add: count_list_scan_of [OF d])
    qed
  qed
  have m: "mset (scan_of gs) = mset ks"
    by (rule multiset_eqI) (simp add: cnt count_mset)
  have "groupCount (scan_of gs) = map (\<lambda>k. (k, count_list ks k)) (map fst gs)"
    by (simp add: groupCount_def remdups_scan_of [OF d pos] cnt)
  also have "\<dots> = map (\<lambda>g. g) gs"
    unfolding map_map by (rule map_cong) (use mem in auto)
  finally show ?thesis using m by simp
qed

subsection \<open>The snapshot\<close>

text \<open>
  C4. On the empty store the snapshot has \<open>total = 0\<close>, a date range of two nulls,
  no recent queries and two empty breakdowns.
\<close>

theorem empty_store_snapshot:
  "total' (computeSnapshot []) = 0
   \<and> dateRange (computeSnapshot []) = \<lparr>earliest = None, latest = None\<rparr>
   \<and> recentQueries (computeSnapshot []) = []
   \<and> searchTypeBreakdown (computeSnapshot []) = []
   \<and> platformBreakdown (computeSnapshot []) = []"
  by (simp add: computeSnapshot_def sql_MIN_def sql_MAX_def non_null_def recentRecords_def
      forEach_prop_def searchTypeResults_def platformResults_def groupCount_def)

subsection \<open>The two breakdowns\<close>

lemma platformBreakdown_filter:
  "platformBreakdown (computeSnapshot (filter (\<lambda>r. platform_name r \<noteq> None) st))
     = platformBreakdown (computeSnapshot st)"
  by (simp add: computeSnapshot_def platformResults_def)

lemma all_null_search_type:
  assumes "st \<noteq> []" and "\<forall>r \<in> set st. search_type r = None"
  shows "searchTypeBreakdown (computeSnapshot st) = [(''Unknown'', length st)]"
proof -
  from assms(2) have "map search_type st = replicate (length st) None"
    by (induction st) auto
  moreover from assms(1) have "0 < length st" by simp
  ultimately have "groupCount (map search_type st) = [(None, length st)]"
    by (simp add: groupCount_replicate)
  then show ?thesis
    by (simp add: computeSnapshot_def searchTypeResults_def forEach_prop_def assign_prop_def orUnknown_def)
qed

lemma all_null_platform:
  assumes "\<forall>r \<in> set st. platform_name r = None"
  shows "platformBreakdown (computeSnapshot st) = []"
proof -
  from assms have "filter (\<lambda>r. platform_name r \<noteq> None) st = []"
    by (simp add: filter_empty_conv)
  then show ?thesis
    by (simp add: computeSnapshot_def platformResults_def groupCount_def forEach_prop_def)
qed


lemma null_search_type_counted:
  assumes "\<exists>r \<in> set st. search_type r = None"
      and "\<forall>r \<in> set st. search_type r \<noteq> Some [] \<and> search_type r \<noteq> Some ''Unknown''"
  shows "map_of (searchTypeBreakdown (computeSnapshot st)) ''Unknown''
           = Some (length (filter (\<lambda>r. search_type r = None) st))"
proof -
  let ?ks = "map search_type st"
  have "map_of (forEach_prop orUnknown (groupCount ?ks)) (orUnknown None) = Some (count_list ?ks None)"
  proof (rule forEach_prop_single_source)
    show "(None, count_list ?ks None) \<in> set (groupCount ?ks)"
      using assms(1) by (force simp: groupCount_mem)
    show "orUnknown None \<noteq> ''__proto__''" by (simp add: orUnknown_def)
    fix k c
    assume "(k, c) \<in> set (groupCount ?ks)" and "orUnknown k = orUnknown None"
    with assms(2) show "c = count_list ?ks None"
      by (auto simp: groupCount_mem orUnknown_def split: option.splits if_splits)
  qed
  then show ?thesis
    by (simp add: computeSnapshot_def searchTypeResults_def count_list_map orUnknown_def)
qed

text \<open>
  C2, on a table with two rows without a search type and one row whose search type is
  the empty string, when the store answers the group of the nulls (count 2) before the
  group of the empty string (count 1). This answer is admissible, and it is the answer
  to the scan that returns the three rows in this order. Both groups get the label
  \<open>Unknown\<close>, the second assignment replaces the first, and the entry is 1: the two
  rows without a search type are not counted under \<open>Unknown\<close>. (When the store answers
  the two groups in the other order the entry is 2, and the row with the empty string is
  the one that is not counted.) The other parts of C2 hold: rows without a platform
  never reach \<open>platformBreakdown\<close> (\<open>platformBreakdown_filter\<close>,
  \<open>all_null_platform\<close>), \<open>N \<ge> 1\<close> rows without a search type alone give
  \<open>{"Unknown": N}\<close> (\<open>all_null_search_type\<close>), and the entry \<open>Unknown\<close> counts
  the rows without a search type whenever no row has the search type \<open>""\<close> or
  \<open>"Unknown"\<close> (\<open>null_search_type_counted\<close>).
\<close>

theorem null_group_overwritten:
  "group_answer
     (map search_type
       [\<lparr>row_id = 1, keyword = Some ''a'', search_type = None, platform_name = None, created_at = Some 0\<rparr>,
        \<lparr>row_id = 2, keyword = Some ''b'', search_type = None, platform_name = None, created_at = Some 5\<rparr>,
        \<lparr>row_id = 3, keyword = Some ''c'', search_type = Some [], platform_name = None, created_at = Some 9\<rparr>])
     [(None, 2), (Some [], 1)]
   \<and> forEach_prop orUnknown [(None, 2), (Some [], 1)] = [(''Unknown'', 1)]
   \<and> searchTypeBreakdown (computeSnapshot
      [\<lparr>row_id = 1, keyword = Some ''a'', search_type = None, platform_name = None, created_at = Some 0\<rparr>,
       \<lparr>row_id = 2, keyword = Some ''b'', search_type = None, platform_name = None, created_at = Some 5\<rparr>,
       \<lparr>row_id = 3, keyword = Some ''c'', search_type = Some [], platform_name = None, created_at = Some 9\<rparr>])
     = [(''Unknown'', 1)]
   \<and> forEach_prop orUnknown [(Some [], 1), (None, 2)] = [(''Unknown'', 2)]"
  by (auto simp: group_answer_def computeSnapshot_def searchTypeResults_def groupCount_def
      forEach_prop_def assign_prop_def orUnknown_def)

text \<open>
  C10, on a table with one row without a search type and one row whose search type is
  the empty string: both rows are labelled \<open>Unknown\<close>, the total is 2, and the entry
  \<open>Unknown\<close> is 1 in either order of the two groups. The count of the empty-string
  group is not added to the count of the absent values: one assignment replaces the
  other and one row is lost.
\<close>

theorem empty_label_and_null_not_added:
  "total' (computeSnapshot
      [\<lparr>row_id = 1, keyword = Some ''a'', search_type = None, platform_name = Some ''web'', created_at = Some 0\<rparr>,
       \<lparr>row_id = 2, keyword = Some ''b'', search_type = Some [], platform_name = Some ''web'', created_at = Some 5\<rparr>])
     = 2
   \<and> searchTypeBreakdown (computeSnapshot
      [\<lparr>row_id = 1, keyword = Some ''a'', search_type = None, platform_name = Some ''web'', created_at = Some 0\<rparr>,
       \<lparr>row_id = 2, keyword = Some ''b'', search_type = Some [], platform_name = Some ''web'', created_at = Some 5\<rparr>])
     = [(''Unknown'', 1)]
   \<and> searchTypeBreakdown (computeSnapshot
      [\<lparr>row_id = 2, keyword = Some ''b'', search_type = Some [], platform_name = Some ''web'', created_at = Some 5\<rparr>,
       \<lparr>row_id = 1, keyword = Some ''a'', search_type = None, platform_name = Some ''web'', created_at = Some 0\<rparr>])
     = [(''Unknown'', 1)]
   \<and> forEach_prop orUnknown [(None, 1), (Some [], 1)] = [(''Unknown'', 1)]
   \<and> forEach_prop orUnknown [(Some [], 1), (None, 1)] = [(''Unknown'', 1)]"
  by (simp add: computeSnapshot_def searchTypeResults_def groupCount_def
      forEach_prop_def assign_prop_def orUnknown_def)

subsection \<open>The timeline\<close>

lemma timeline_lookup:
  "map_of (timelineData (computeSnapshot st)) d =
     (if length (filter (\<lambda>r. row_date r = d) st) = 0 then None
      else Some (length (filter (\<lambda>r. row_date r = d) st)))"
proof -
  let ?ks = "map row_date st"
  let ?le = "\<lambda>a b. pg_le (fst a) (fst b)"
  have tl: "timelineData (computeSnapshot st) = forEach_assign (\<lambda>d. d) (order_by ?le (groupCount ?ks))"
    by (simp add: computeSnapshot_def timelineResults_def)
  have len: "length (filter (\<lambda>r. row_date r = d) st) = count_list ?ks d"
    by (simp add: count_list_map)
  show ?thesis
  proof (cases "d \<in> set ?ks")
    case True
    have "map_of (forEach_assign (\<lambda>d. d) (order_by ?le (groupCount ?ks))) d = Some (count_list ?ks d)"
    proof (rule forEach_assign_single_source)
      show "(d, count_list ?ks d) \<in> set (order_by ?le (groupCount ?ks))"
        using True by (simp add: set_order_by groupCount_mem del: set_map)
    next
      fix k c
      assume "(k, c) \<in> set (order_by ?le (groupCount ?ks))" and "k = d"
      then show "c = count_list ?ks d"
        by (simp add: set_order_by groupCount_mem del: set_map)
    qed
    moreover from True have "count_list ?ks d \<noteq> 0"
      by (simp add: count_list_0_iff del: set_map)
    ultimately show ?thesis by (simp add: tl len del: set_map)
  next
    case False
    then have "d \<notin> (\<lambda>d. d) ` fst ` set (order_by ?le (groupCount ?ks))"
      by (auto simp: set_order_by groupCount_mem simp del: set_map)
    then have "map_of (forEach_assign (\<lambda>d. d) (order_by ?le (groupCount ?ks))) d = None"
      by (rule forEach_assign_absent)
    moreover from False have "count_list ?ks d = 0"
      by (simp add: count_list_0_iff del: set_map)
    ultimately show ?thesis by (simp add: tl len)
  qed
qed

text \<open>
  C5. \<open>timelineData\<close> holds, for every day, the number of rows created on that day,
  and has no entry for a day without rows. Every row with a creation time has its day
  in the timeline, however far back: no window is applied.
\<close>

theorem timelineData_counts_every_day:
  "map_of (timelineData (computeSnapshot st)) (Some day) =
     (if length (filter (\<lambda>r. row_date r = Some day) st) = 0 then None
      else Some (length (filter (\<lambda>r. row_date r = Some day) st)))
   \<and> (\<forall>r \<in> set st. \<forall>t. created_at r = Some t \<longrightarrow>
        map_of (timelineData (computeSnapshot st)) (Some (DATE t)) \<noteq> None)"
proof -
  have "\<And>r t. r \<in> set st \<Longrightarrow> created_at r = Some t \<Longrightarrow> filter (\<lambda>r. row_date r = Some (DATE t)) st \<noteq> []"
    by (auto simp: filter_empty_conv row_date_def)
  then show ?thesis
    by (simp add: timeline_lookup)
qed

theorem timelineData_counts_every_day_witness:
  "map_of (timelineData (computeSnapshot
      [\<lparr>row_id = 1, keyword = None, search_type = None, platform_name = None, created_at = Some 0\<rparr>,
       \<lparr>row_id = 2, keyword = None, search_type = None, platform_name = None, created_at = Some 34560000000000\<rparr>,
       \<lparr>row_id = 3, keyword = None, search_type = None, platform_name = None, created_at = Some 34560000000001\<rparr>]))
     (Some 400) = Some 2
   \<and> map_of (timelineData (computeSnapshot
      [\<lparr>row_id = 1, keyword = None, search_type = None, platform_name = None, created_at = Some 0\<rparr>,
       \<lparr>row_id = 2, keyword = None, search_type = None, platform_name = None, created_at = Some 34560000000000\<rparr>,
       \<lparr>row_id = 3, keyword = None, search_type = None, platform_name = None, created_at = Some 34560000000001\<rparr>]))
     (Some 0) \<noteq> None"
  using timelineData_counts_every_day [of
      "[\<lparr>row_id = 1, keyword = None, search_type = None, platform_name = None, created_at = Some 0\<rparr>,
       \<lparr>row_id = 2, keyword = None, search_type = None, platform_name = None, created_at = Some 34560000000000\<rparr>,
       \<lparr>row_id = 3, keyword = None, search_type = None, platform_name = None, created_at = Some 34560000000001\<rparr>]"
      400]
  by (simp add: row_date_def DATE_def)

subsection \<open>Recent queries\<close>

lemma recentQueries_length: "length (recentQueries (computeSnapshot st)) = min 10 (length st)"
  by (simp add: computeSnapshot_def recentRecords_def length_order_by)

lemma recent_rows_sorted:
  "sorted_wrt (\<lambda>a b. pg_le (created_at b) (created_at a))
     (take 10 (order_by (\<lambda>a b. pg_le (created_at b) (created_at a)) st))"
proof -
  have "sorted_wrt (\<lambda>a b. pg_le (created_at b) (created_at a))
          (order_by (\<lambda>a b. pg_le (created_at b) (created_at a)) st)"
    by (rule sorted_order_by) (use pg_le_total pg_le_trans in blast)+
  then show ?thesis by (rule sorted_wrt_take)
qed

lemma project_build_instance:
  "project_recent (build_instance r) =
     [(''id'', JNum (row_id r)),
      (''keyword'', js_text (keyword r)),
      (''search_type'', js_text (search_type r)),
      (''platform_name'', JUndefined),
      (''created_at'', js_time (created_at r))]"
  by (simp add: project_recent_def build_instance_def row_columns_def SearchQuery_attributes_def
      instance_get_def)

lemma recentQueries_rows:
  "recentQueries (computeSnapshot st) =
     map (\<lambda>r. [(''id'', JNum (row_id r)),
               (''keyword'', js_text (keyword r)),
               (''search_type'', js_text (search_type r)),
               (''platform_name'', JUndefined),
               (''created_at'', js_time (created_at r))])
       (take 10 (order_by (\<lambda>a b. pg_le (created_at b) (created_at a)) st))"
  by (simp add: computeSnapshot_def recentRecords_def project_build_instance)

text \<open>
  C3, at a store with one row whose \<open>platform_name\<close> is \<open>web\<close>: the element of
  \<open>recentQueries\<close> carries the row's id, keyword, search type and creation time, but
  its \<open>platform_name\<close> is \<open>undefined\<close>, not the stored value. The length and the
  order of \<open>recentQueries\<close> are as claimed (\<open>recentQueries_length\<close>,
  \<open>recent_rows_sorted\<close>, \<open>recentQueries_rows\<close>).
\<close>

theorem recentQueries_platform_name_undefined:
  "recentQueries (computeSnapshot
     [\<lparr>row_id = 1, keyword = Some ''shoes'', search_type = Some ''job'',
       platform_name = Some ''web'', created_at = Some 0\<rparr>])
   = [[(''id'', JNum 1), (''keyword'', JStr ''shoes''), (''search_type'', JStr ''job''),
       (''platform_name'', JUndefined), (''created_at'', JDate 0)]]"
  by (simp add: recentQueries_rows js_text_def js_time_def)

subsection \<open>Two calls on unchanged rows\<close>












end
